theory Spec2Isabelle
  imports Main "HOL-Library.Sublist"
begin

section \<open>Python values, exceptions and string rendering\<close>

text \<open>
  The module \<^verbatim>\<open>fastapi/fastapi.py\<close> wires a Flask application: it mutates the module-level
  singletons \<^verbatim>\<open>app\<close>, \<^verbatim>\<open>db\<close>, \<^verbatim>\<open>celery\<close>, \<^verbatim>\<open>limiter\<close> and \<^verbatim>\<open>cache\<close>. The embedding
  passes that state explicitly (record \<open>app\<close> below) and turns every \<^verbatim>\<open>raise\<close> into a value.

  Configuration values and bound statement parameters are the scalar Python values;
  floats and byte strings are left out.
\<close>

datatype pyval = PNone | PBool bool | PInt int | PStr string

datatype error =
    KeyError string
  | AttributeError string
  | TypeError string
  | ValueError string
  | AssertionError string
  | RuntimeError string
  | CollaboratorError string

text \<open>\<open>CollaboratorError\<close> stands for whatever an external library or a module of the
  repository that is not part of this file raises (\<^verbatim>\<open>OSError\<close>, \<^verbatim>\<open>ImportError\<close>,
  a driver error, ...).\<close>

definition digit_char :: "nat \<Rightarrow> char" where
  "digit_char d = ''0123456789'' ! d"

fun str_nat :: "nat \<Rightarrow> string" where
  "str_nat n = (if n < 10 then [digit_char n] else str_nat (n div 10) @ [digit_char (n mod 10)])"

declare str_nat.simps [simp del]

definition str_int :: "int \<Rightarrow> string" where
  "str_int i = (if i < 0 then CHR ''-'' # str_nat (nat (- i)) else str_nat (nat i))"

text \<open>\<^verbatim>\<open>str(v)\<close>, which is also what \<^verbatim>\<open>'{}'.format(v)\<close> renders for these types.\<close>

fun py_str :: "pyval \<Rightarrow> string" where
  "py_str PNone = ''None''"
| "py_str (PBool b) = (if b then ''True'' else ''False'')"
| "py_str (PInt i) = str_int i"
| "py_str (PStr s) = s"

text \<open>Python truthiness (\<^verbatim>\<open>not v\<close> is its negation).\<close>

fun truthy :: "pyval \<Rightarrow> bool" where
  "truthy PNone = False"
| "truthy (PBool b) = b"
| "truthy (PInt i) = (i \<noteq> 0)"
| "truthy (PStr s) = (s \<noteq> [])"

text \<open>\<^verbatim>\<open>sep.join(items)\<close>\<close>

fun join :: "string \<Rightarrow> string list \<Rightarrow> string" where
  "join sep [] = []"
| "join sep [x] = x"
| "join sep (x # y # ys) = x @ sep @ join sep (y # ys)"

text \<open>ASCII case tests and conversion (\<^verbatim>\<open>str.isupper\<close>, \<^verbatim>\<open>str.lower\<close>); characters
  outside ASCII are treated as uncased.\<close>

definition is_ascii_upper :: "char \<Rightarrow> bool" where
  "is_ascii_upper c = (c \<in> set ''ABCDEFGHIJKLMNOPQRSTUVWXYZ'')"

definition is_ascii_lower :: "char \<Rightarrow> bool" where
  "is_ascii_lower c = (c \<in> set ''abcdefghijklmnopqrstuvwxyz'')"

definition isupper :: "string \<Rightarrow> bool" where
  "isupper s = (list_ex is_ascii_upper s \<and> \<not> list_ex is_ascii_lower s)"

definition lower_char :: "char \<Rightarrow> char" where
  "lower_char c =
     (case map_of (zip ''ABCDEFGHIJKLMNOPQRSTUVWXYZ'' ''abcdefghijklmnopqrstuvwxyz'') c of
        Some l \<Rightarrow> l
      | None \<Rightarrow> c)"

definition lower :: "string \<Rightarrow> string" where
  "lower s = map lower_char s"

text \<open>\<^verbatim>\<open>statement.replace('\n', ' ')\<close>: the pattern is one character, so the replacement
  is a map over the characters.\<close>

definition replace_newlines :: "string \<Rightarrow> string" where
  "replace_newlines s = map (\<lambda>c. if c = CHR 0x0A then CHR '' '' else c) s"

text \<open>\<^verbatim>\<open>os.path.join\<close> (POSIX) with one and with two components. A component that is
  not a string raises \<^verbatim>\<open>TypeError\<close>.\<close>

definition path_join1 :: "pyval \<Rightarrow> error + string" where
  "path_join1 a = (case a of PStr p \<Rightarrow> Inr p | _ \<Rightarrow> Inl (TypeError ''join''))"

definition path_join2 :: "pyval \<Rightarrow> pyval \<Rightarrow> error + string" where
  "path_join2 a b =
     (case (a, b) of
        (PStr p, PStr q) \<Rightarrow>
          Inr (if q \<noteq> [] \<and> hd q = CHR ''/'' then q
               else if p = [] \<or> last p = CHR ''/'' then p @ q
               else p @ ''/'' @ q)
      | _ \<Rightarrow> Inl (TypeError ''join''))"

section \<open>The process state\<close>

datatype level = DEBUG | INFO | WARNING | ERROR | CRITICAL

text \<open>The fixed messages the bootstrap logs are Chinese literals in the source
  ("initialised the logger successfully", and likewise for db, Redis, Sentry and
  celery); they are named here. \<open>Line\<close> carries a computed message.\<close>

datatype log_msg =
    LoggerReady | DbReady | RedisReady | SentryReady | CeleryReady
  | Line string

datatype log_handler =
    StreamHandler nat
  | TimedRotatingFileHandler string string nat

text \<open>Keys of Flask's error-handler registry, and the handler functions and request
  hooks the module imports from \<^verbatim>\<open>fastapi.utils\<close> (opaque here: their bodies are not
  part of this file).\<close>

datatype exc_key = HTTPCode nat | ExcClass string

datatype handler_fn = error_404_handler | error_429_handler | error_handler

datatype hook_fn = before_request_handler | after_request_handler

record blueprint =
  bp_ident :: nat
  bp_name :: string
  url_prefix :: "string option"

text \<open>\<^verbatim>\<open>celery.Task\<close>: the class celery ships, or the subclass \<^verbatim>\<open>ContextTask\<close> that
  \<^verbatim>\<open>init_celery\<close> builds around the class it found.\<close>

datatype task_class = TaskBase | ContextTask task_class

text \<open>The functions of the module, as tags of the history variable \<open>calls\<close>.\<close>

datatype call =
    InitConfig | InitLogger | InitErrorHandlers | InitHooks | InitDb | InitRedis
  | InitSentry | InitCelery | InitLimiter | InitCache | RegisterBlueprints
  | RegisterSignalHandlers

record app =
  config :: "string \<rightharpoonup> pyval"
  logger_handlers :: "log_handler list"
  log :: "(level \<times> log_msg) list"
  made_dirs :: "string list"
  error_handler_spec :: "exc_key \<rightharpoonup> handler_fn"
  before_request_funcs :: "hook_fn list"
  after_request_funcs :: "hook_fn list"
  db_apps :: nat
  redis_clients :: nat
  sentry_inits :: "pyval list"
  celery_conf :: "string \<rightharpoonup> pyval"
  celery_Task :: task_class
  limiter_apps :: nat
  cache_apps :: nat
  blueprints :: "string \<rightharpoonup> blueprint"
  blueprint_order :: "blueprint list"
  signal_registrations :: nat
  calls :: "call list"

text \<open>
  \<open>log\<close> holds the calls made on \<^verbatim>\<open>app.logger\<close> (severity and message), in order.
  \<open>db_apps\<close>, \<open>redis_clients\<close>, \<open>limiter_apps\<close>, \<open>cache_apps\<close> and
  \<open>signal_registrations\<close> count the completed \<^verbatim>\<open>init_app\<close>-style calls on the
  collaborator; \<open>sentry_inits\<close> lists the \<^verbatim>\<open>dsn\<close> argument of every \<^verbatim>\<open>Sentry(app, dsn=...)\<close>
  construction that was invoked. \<open>calls\<close> is a history variable: every function of the
  module appends its tag on entry, so that the order of the bootstrap can be stated.
\<close>

text \<open>What the process reads from outside: the environment, the profiles table
  \<^verbatim>\<open>fastapi.config.config\<close> (a module of the repository that is not part of this file,
  taken as a parameter), the file system, the modules that \<^verbatim>\<open>find_modules\<close> yields
  with the result of importing each (an exception, or the module with its \<^verbatim>\<open>bp\<close>
  attribute if it has one), and the exception each external call raises, if any.\<close>

datatype collaborator =
    OsMkdir | OpenLogFile | DbInitApp | InitRedisClient | SentryInit
  | LimiterInitApp | CacheInitApp | FindModules | SignalsRegister

record world =
  environ :: "string \<rightharpoonup> string"
  fastapi_config :: "string \<rightharpoonup> (string \<rightharpoonup> pyval)"
  isdir :: "string \<Rightarrow> bool"
  modules :: "(string \<times> (error + blueprint option)) list"
  raises :: "collaborator \<Rightarrow> error option"

text \<open>A function of the module either returns (\<open>None\<close>) or raises (\<open>Some e\<close>); in both
  cases the state it leaves behind is the second component.\<close>

type_synonym step = "app \<Rightarrow> error option \<times> app"

definition seq :: "step \<Rightarrow> step \<Rightarrow> step" where
  "seq f g s = (case f s of (None, s') \<Rightarrow> g s' | (Some e, s') \<Rightarrow> (Some e, s'))"

definition enter :: "call \<Rightarrow> app \<Rightarrow> app" where
  "enter c s = s\<lparr>calls := calls s @ [c]\<rparr>"

definition logger_call :: "level \<Rightarrow> log_msg \<Rightarrow> app \<Rightarrow> app" where
  "logger_call lv m s = s\<lparr>log := log s @ [(lv, m)]\<rparr>"

section \<open>Configuration and logging\<close>

text \<open>\<^verbatim>\<open>app.config.from_object(obj)\<close> (Flask): every attribute of \<open>obj\<close> whose name
  is upper case is copied into the configuration; the other keys are kept.\<close>

definition from_object :: "(string \<rightharpoonup> pyval) \<Rightarrow> (string \<rightharpoonup> pyval) \<Rightarrow> (string \<rightharpoonup> pyval)" where
  "from_object cfg obj =
     (\<lambda>k. case obj k of
            Some v \<Rightarrow> if isupper k then Some v else cfg k
          | None \<Rightarrow> cfg k)"

text \<open>\<^verbatim>\<open>run_mode = os.environ.get('FASTAPI_MODE', 'dev')\<close>\<close>

definition run_mode :: "world \<Rightarrow> string" where
  "run_mode w = (case environ w ''FASTAPI_MODE'' of None \<Rightarrow> ''dev'' | Some m \<Rightarrow> m)"

definition init_config :: "world \<Rightarrow> step" where
  "init_config w s0 =
     (let s = enter InitConfig s0 in
      case fastapi_config w (run_mode w) of
        None \<Rightarrow> (Some (KeyError (run_mode w)), s)
      | Some obj \<Rightarrow> (None, s\<lparr>config := from_object (config s) obj\<rparr>))"

text \<open>The table \<^verbatim>\<open>LEVELS\<close> of \<^verbatim>\<open>init_logger\<close>, with the numeric values of the
  \<^verbatim>\<open>logging\<close> constants; \<^verbatim>\<open>LEVELS.get(name, 'info')\<close> falls back to the string
  \<^verbatim>\<open>'info'\<close>.\<close>

definition LEVELS :: "string \<rightharpoonup> pyval" where
  "LEVELS = map_of
     [(''debug'', PInt 10), (''info'', PInt 20), (''warning'', PInt 30),
      (''error'', PInt 40), (''critical'', PInt 50)]"

text \<open>\<^verbatim>\<open>Handler.setLevel\<close> checks its argument (\<^verbatim>\<open>logging._checkLevel\<close>): an integer is
  taken as it is, a string must be one of the upper-case level names.\<close>

definition nameToLevel :: "string \<rightharpoonup> nat" where
  "nameToLevel = map_of
     [(''CRITICAL'', 50), (''FATAL'', 50), (''ERROR'', 40), (''WARN'', 30),
      (''WARNING'', 30), (''INFO'', 20), (''DEBUG'', 10), (''NOTSET'', 0)]"

definition checkLevel :: "pyval \<Rightarrow> error + nat" where
  "checkLevel v =
     (case v of
        PInt i \<Rightarrow> Inr (nat i)
      | PBool b \<Rightarrow> Inr (if b then 1 else 0)
      | PStr n \<Rightarrow> (case nameToLevel n of
                     Some l \<Rightarrow> Inr l
                   | None \<Rightarrow> Inl (ValueError ''Unknown level''))
      | PNone \<Rightarrow> Inl (TypeError ''Level not an integer or a valid string''))"

definition init_logger :: "world \<Rightarrow> step" where
  "init_logger w s0 =
     (let s = enter InitLogger s0 in
      case config s ''LOG_PATH'' of
        None \<Rightarrow> (Some (KeyError ''LOG_PATH''), s)
      | Some lp \<Rightarrow>
      (case path_join1 lp of
        Inl e \<Rightarrow> (Some e, s)
      | Inr log_dir \<Rightarrow>
      (case config s ''LOG_FILENAME'' of
        None \<Rightarrow> (Some (KeyError ''LOG_FILENAME''), s)
      | Some lf \<Rightarrow>
      (case path_join2 lp lf of
        Inl e \<Rightarrow> (Some e, s)
      | Inr log_file \<Rightarrow>
      (case (if isdir w log_dir then (None, s)
             else (case raises w OsMkdir of
                     Some e \<Rightarrow> (Some e, s)
                   | None \<Rightarrow> (None, s\<lparr>made_dirs := made_dirs s @ [log_dir]\<rparr>))) of
        (Some e, s1) \<Rightarrow> (Some e, s1)
      | (None, s1) \<Rightarrow>
      (case config s1 ''LOG_LEVEL'' of
        None \<Rightarrow> (Some (KeyError ''LOG_LEVEL''), s1)
      | Some (PStr lv) \<Rightarrow>
          (let log_level = (case LEVELS (lower lv) of None \<Rightarrow> PStr ''info'' | Some l \<Rightarrow> l) in
           case raises w OpenLogFile of
             Some e \<Rightarrow> (Some e, s1)
           | None \<Rightarrow>
           (case checkLevel log_level of
             Inl e \<Rightarrow> (Some e, s1)
           | Inr n \<Rightarrow>
               (let rotate_handler = TimedRotatingFileHandler log_file ''%Y%m%d.log'' n;
                    stream_handler = StreamHandler n;
                    s2 = s1\<lparr>logger_handlers := logger_handlers s1 @ [stream_handler]\<rparr>;
                    s3 = s2\<lparr>logger_handlers := logger_handlers s2 @ [rotate_handler]\<rparr>
                in (None, logger_call INFO LoggerReady s3))))
      | Some _ \<Rightarrow> (Some (AttributeError ''lower''), s1)))))))"

section \<open>Statement instrumentation\<close>

text \<open>The execution context SQLAlchemy hands to the two listeners; the attribute
  \<^verbatim>\<open>query_start_ts\<close> exists once it has been assigned. The bound parameters are a dict
  (in insertion order), a tuple, or something else (a list of parameter sets, \<^verbatim>\<open>None\<close>).
  The first argument \<open>now\<close> is the value of \<^verbatim>\<open>int(time.time() * 1000)\<close> at the call.\<close>

record exec_context =
  query_start_ts :: "int option"

datatype parameters =
    ParamsDict "(string \<times> pyval) list"
  | ParamsTuple "pyval list"
  | ParamsOther

definition before_cursor_execute ::
  "int \<Rightarrow> 'conn \<Rightarrow> 'cursor \<Rightarrow> string \<Rightarrow> parameters \<Rightarrow> exec_context \<Rightarrow> bool \<Rightarrow> exec_context" where
  "before_cursor_execute now conn cursor statement params ctx exceutemany =
     ctx\<lparr>query_start_ts := Some now\<rparr>"

definition render_params :: "parameters \<Rightarrow> string" where
  "render_params params =
     (case params of
        ParamsDict items \<Rightarrow>
          foldl (\<lambda>str_params (name, val). str_params @ name @ '':'' @ py_str val @ '', '') [] items
      | ParamsTuple items \<Rightarrow> join '', '' (map py_str items)
      | ParamsOther \<Rightarrow> [])"

definition sql_log :: "int \<Rightarrow> string \<Rightarrow> string \<Rightarrow> string" where
  "sql_log cost str_statement str_params =
     ''[cost: '' @ str_int cost @ ''ms]sql: '' @ str_statement @ '', params: '' @ str_params"

definition after_cursor_execute ::
  "int \<Rightarrow> 'conn \<Rightarrow> 'cursor \<Rightarrow> string \<Rightarrow> parameters \<Rightarrow> exec_context \<Rightarrow> bool \<Rightarrow> step" where
  "after_cursor_execute now conn cursor statement params ctx exceutemany s =
     (case query_start_ts ctx of
        None \<Rightarrow> (Some (AttributeError ''query_start_ts''), s)
      | Some start \<Rightarrow>
          (let cost = now - start;
               str_params = render_params params;
               str_statement = replace_newlines statement
           in (None, logger_call DEBUG (Line (sql_log cost str_statement str_params)) s)))"

section \<open>Collaborators bound to the application\<close>

definition init_db :: "world \<Rightarrow> step" where
  "init_db w s0 =
     (let s = enter InitDb s0 in
      case raises w DbInitApp of
        Some e \<Rightarrow> (Some e, s)
      | None \<Rightarrow> (None, logger_call INFO DbReady (s\<lparr>db_apps := db_apps s + 1\<rparr>)))"

definition init_redis :: "world \<Rightarrow> step" where
  "init_redis w s0 =
     (let s = enter InitRedis s0 in
      case raises w InitRedisClient of
        Some e \<Rightarrow> (Some e, s)
      | None \<Rightarrow> (None, logger_call INFO RedisReady (s\<lparr>redis_clients := redis_clients s + 1\<rparr>)))"

text \<open>\<^verbatim>\<open>init_sentry\<close> reads \<^verbatim>\<open>ENABLE_SENTRY\<close> (default \<^verbatim>\<open>False\<close>); the branch taken
  when it is false is \<^verbatim>\<open>pass\<close>, and the construction \<^verbatim>\<open>Sentry(app, dsn=...)\<close> follows
  the \<^verbatim>\<open>if\<close> statement. \<^verbatim>\<open>app.config.get('SENTRY_DSN')\<close> is \<^verbatim>\<open>None\<close> for a missing key.\<close>

definition init_sentry :: "world \<Rightarrow> step" where
  "init_sentry w s0 =
     (let s = enter InitSentry s0;
          enable_sentry = (case config s ''ENABLE_SENTRY'' of None \<Rightarrow> PBool False | Some v \<Rightarrow> v);
          s1 = (if \<not> truthy enable_sentry then s else s);
          dsn = (case config s1 ''SENTRY_DSN'' of None \<Rightarrow> PNone | Some v \<Rightarrow> v);
          s2 = s1\<lparr>sentry_inits := sentry_inits s1 @ [dsn]\<rparr>
      in case raises w SentryInit of
           Some e \<Rightarrow> (Some e, s2)
         | None \<Rightarrow> (None, logger_call INFO SentryReady s2))"

text \<open>\<^verbatim>\<open>celery.conf.update(app.config)\<close> is a dict update; then \<^verbatim>\<open>celery.Task\<close> is
  replaced by a subclass of the class found there.\<close>

definition init_celery :: step where
  "init_celery s0 =
     (let s = enter InitCelery s0;
          s1 = s\<lparr>celery_conf := celery_conf s ++ config s\<rparr>;
          s2 = s1\<lparr>celery_Task := ContextTask (celery_Task s1)\<rparr>
      in (None, logger_call INFO CeleryReady s2))"

definition init_limiter :: "world \<Rightarrow> step" where
  "init_limiter w s0 =
     (let s = enter InitLimiter s0 in
      case raises w LimiterInitApp of
        Some e \<Rightarrow> (Some e, s)
      | None \<Rightarrow> (None, s\<lparr>limiter_apps := limiter_apps s + 1\<rparr>))"

definition init_cache :: "world \<Rightarrow> step" where
  "init_cache w s0 =
     (let s = enter InitCache s0 in
      case raises w CacheInitApp of
        Some e \<Rightarrow> (Some e, s)
      | None \<Rightarrow> (None, s\<lparr>cache_apps := cache_apps s + 1\<rparr>))"

definition register_signal_handlers :: "world \<Rightarrow> step" where
  "register_signal_handlers w s0 =
     (let s = enter RegisterSignalHandlers s0 in
      case raises w SignalsRegister of
        Some e \<Rightarrow> (Some e, s)
      | None \<Rightarrow> (None, s\<lparr>signal_registrations := signal_registrations s + 1\<rparr>))"

section \<open>Error handlers and request hooks\<close>

text \<open>\<^verbatim>\<open>app.register_error_handler(key, f)\<close> stores \<open>f\<close> under the status code or the
  exception class; \<^verbatim>\<open>app.before_request\<close> and \<^verbatim>\<open>app.after_request\<close> append to the hook
  lists.\<close>

definition register_error_handler :: "exc_key \<Rightarrow> handler_fn \<Rightarrow> app \<Rightarrow> app" where
  "register_error_handler k f s = s\<lparr>error_handler_spec := (error_handler_spec s)(k \<mapsto> f)\<rparr>"

definition init_error_handlers :: step where
  "init_error_handlers s0 =
     (let s = enter InitErrorHandlers s0;
          s1 = register_error_handler (HTTPCode 404) error_404_handler s;
          s2 = register_error_handler (HTTPCode 429) error_429_handler s1;
          s3 = register_error_handler (ExcClass ''APIError'') error_handler s2
      in (None, s3))"

definition init_hooks :: step where
  "init_hooks s0 =
     (let s = enter InitHooks s0;
          s1 = s\<lparr>before_request_funcs := before_request_funcs s @ [before_request_handler]\<rparr>;
          s2 = s1\<lparr>after_request_funcs := after_request_funcs s1 @ [after_request_handler]\<rparr>
      in (None, s2))"

section \<open>Route discovery\<close>

text \<open>
  \<^verbatim>\<open>register_blueprints\<close> itself only loops: import each module that \<^verbatim>\<open>find_modules\<close>
  yields and hand its \<^verbatim>\<open>bp\<close>, if it has one, to \<^verbatim>\<open>app.register_blueprint\<close>. That method
  belongs to Flask, not to the repository. It is modelled here as Flask implements it:
  the registry \<^verbatim>\<open>app.blueprints\<close> is keyed by the blueprint's name; a name that is already
  bound to another blueprint object fails an assertion; registering the same object
  again is accepted. The URL prefix is not looked at.
\<close>

definition flask_register_blueprint :: "blueprint \<Rightarrow> step" where
  "flask_register_blueprint bp s =
     (case blueprints s (bp_name bp) of
        Some old \<Rightarrow>
          if bp_ident old = bp_ident bp then (None, s)
          else (Some (AssertionError ''A blueprint name collision occurred''), s)
      | None \<Rightarrow>
          (None, s\<lparr>blueprints := (blueprints s)(bp_name bp \<mapsto> bp),
                   blueprint_order := blueprint_order s @ [bp]\<rparr>))"

fun register_loop :: "(string \<times> (error + blueprint option)) list \<Rightarrow> step" where
  "register_loop [] s = (None, s)"
| "register_loop ((name, imported) # rest) s =
     (case imported of
        Inl e \<Rightarrow> (Some e, s)
      | Inr None \<Rightarrow> register_loop rest s
      | Inr (Some bp) \<Rightarrow>
          (case flask_register_blueprint bp s of
             (Some e, s') \<Rightarrow> (Some e, s')
           | (None, s') \<Rightarrow> register_loop rest s'))"

definition register_blueprints :: "world \<Rightarrow> step" where
  "register_blueprints w s0 =
     (let s = enter RegisterBlueprints s0 in
      case raises w FindModules of
        Some e \<Rightarrow> (Some e, s)
      | None \<Rightarrow> register_loop (modules w) s)"

section \<open>The bootstrap\<close>

definition init_app :: "world \<Rightarrow> step" where
  "init_app w =
     seq (init_config w)
    (seq (init_logger w)
    (seq init_error_handlers
    (seq init_hooks
    (seq (init_db w)
    (seq (init_redis w)
    (seq (init_sentry w)
    (seq init_celery
    (seq (init_limiter w)
    (seq (init_cache w)
    (seq (register_blueprints w)
         (register_signal_handlers w)))))))))))"

text \<open>The order in which \<^verbatim>\<open>init_app\<close> calls the functions of the module.\<close>

definition boot_order :: "call list" where
  "boot_order =
     [InitConfig, InitLogger, InitErrorHandlers, InitHooks, InitDb, InitRedis,
      InitSentry, InitCelery, InitLimiter, InitCache, RegisterBlueprints,
      RegisterSignalHandlers]"

text \<open>\<open>occurs_before a b cs\<close>: \<open>a\<close> is called before the first call of \<open>b\<close>.\<close>

definition occurs_before :: "call \<Rightarrow> call \<Rightarrow> call list \<Rightarrow> bool" where
  "occurs_before a b cs = (a \<in> set (takeWhile (\<lambda>c. c \<noteq> b) cs) \<and> b \<in> set cs)"

text \<open>The module-level objects as they are constructed at import, before
  \<^verbatim>\<open>init_app()\<close> runs: nothing registered, \<^verbatim>\<open>celery.Task\<close> the class celery ships.
  \<open>defaults\<close> is the configuration a new Flask application starts with.\<close>

definition new_app :: "(string \<rightharpoonup> pyval) \<Rightarrow> app" where
  "new_app defaults =
     \<lparr>config = defaults, logger_handlers = [], log = [], made_dirs = [],
      error_handler_spec = Map.empty, before_request_funcs = [], after_request_funcs = [],
      db_apps = 0, redis_clients = 0, sentry_inits = [], celery_conf = Map.empty,
      celery_Task = TaskBase, limiter_apps = 0, cache_apps = 0, blueprints = Map.empty,
      blueprint_order = [], signal_registrations = 0, calls = []\<rparr>"

section \<open>Deferred work\<close>

text \<open>
  A unit of deferred work is the \<^verbatim>\<open>run\<close> body of a celery task: it receives its
  arguments and can read the ambient stack of application contexts (Flask's
  \<^verbatim>\<open>_app_ctx_stack\<close>, innermost first; a context is the application it was made for).
  It returns a value or raises.

  \<open>task_call cls a run args stack\<close> is \<^verbatim>\<open>cls.__call__(self, *args, **kwargs)\<close> in a
  process whose module-level \<^verbatim>\<open>app\<close> is \<open>a\<close>. For \<^verbatim>\<open>ContextTask\<close> the body is
  \<^verbatim>\<open>with app.app_context(): return TaskBase.__call__(self, *args, **kwargs)\<close>: entering
  the \<^verbatim>\<open>with\<close> block pushes a context of \<open>a\<close>, leaving it pops, and the block is left
  in the same way whether the call returns or raises.
\<close>

type_synonym unit_of_work = "app list \<Rightarrow> pyval list \<Rightarrow> error + pyval"

fun task_call ::
  "task_class \<Rightarrow> app \<Rightarrow> unit_of_work \<Rightarrow> pyval list \<Rightarrow> app list \<Rightarrow> (error + pyval) \<times> app list" where
  "task_call TaskBase a run args stack = (run stack args, stack)"
| "task_call (ContextTask base) a run args stack =
     (let entered = a # stack;
          (r, inside) = task_call base a run args entered
      in (r, tl inside))"

text \<open>The unit the round-trip property is about: it reads one configuration value
  through the ambient context, \<^verbatim>\<open>current_app.config[key]\<close>. Outside any application
  context Flask raises \<^verbatim>\<open>RuntimeError\<close>.\<close>

definition read_config :: "string \<Rightarrow> unit_of_work" where
  "read_config k stack args =
     (case stack of
        [] \<Rightarrow> Inl (RuntimeError ''Working outside of application context'')
      | a # _ \<Rightarrow> (case config a k of None \<Rightarrow> Inl (KeyError k) | Some v \<Rightarrow> Inr v))"

section \<open>Dispatch of a failure raised by a request\<close>

text \<open>
  The module only registers three handlers; what happens to a failure is decided by
  Flask (\<^verbatim>\<open>handle_user_exception\<close>, \<^verbatim>\<open>handle_http_exception\<close>, \<^verbatim>\<open>handle_exception\<close>),
  modelled here as Flask implements it. A failure is an HTTP exception with its status
  code or another exception, named by its class (subclassing is not modelled). An HTTP
  exception without a handler is itself the response; another exception without a
  handler is re-raised when the application propagates exceptions (debug or testing
  mode) and otherwise answered by the handler for status 500 or, without one, by the
  default \<^verbatim>\<open>InternalServerError\<close> response.
\<close>

datatype failure = HTTPException nat | UserException string

datatype outcome = Handled handler_fn | DefaultResponse nat | Reraised

definition find_error_handler :: "app \<Rightarrow> failure \<Rightarrow> handler_fn option" where
  "find_error_handler s f =
     (case f of
        HTTPException code \<Rightarrow> error_handler_spec s (HTTPCode code)
      | UserException cls \<Rightarrow> error_handler_spec s (ExcClass cls))"

definition flask_handle_exception :: "bool \<Rightarrow> app \<Rightarrow> outcome" where
  "flask_handle_exception propagate_exceptions s =
     (if propagate_exceptions then Reraised
      else (case find_error_handler s (HTTPException 500) of
              None \<Rightarrow> DefaultResponse 500
            | Some h \<Rightarrow> Handled h))"

definition flask_handle_user_exception :: "bool \<Rightarrow> app \<Rightarrow> failure \<Rightarrow> outcome" where
  "flask_handle_user_exception propagate_exceptions s f =
     (case f of
        HTTPException code \<Rightarrow>
          (case find_error_handler s f of
             None \<Rightarrow> DefaultResponse code
           | Some h \<Rightarrow> Handled h)
      | UserException cls \<Rightarrow>
          (case find_error_handler s f of
             None \<Rightarrow> flask_handle_exception propagate_exceptions s
           | Some h \<Rightarrow> Handled h))"

section \<open>An example deployment\<close>

text \<open>Two profiles, three modules under \<^verbatim>\<open>fastapi.api\<close> (two with a blueprint, both under
  the prefix \<^verbatim>\<open>/a\<close>, one without), no log directory yet, and collaborators that do not
  fail. The discriminator \<^verbatim>\<open>FASTAPI_MODE\<close> is the parameter.\<close>

definition dev_profile :: "string \<rightharpoonup> pyval" where
  "dev_profile = map_of
     [(''LOG_PATH'', PStr ''logs''), (''LOG_FILENAME'', PStr ''fastapi.log''),
      (''LOG_LEVEL'', PStr ''DEBUG''), (''ENABLE_SENTRY'', PBool False),
      (''CACHE_DEFAULT_TIMEOUT'', PInt 300), (''note'', PStr ''lower case, not copied'')]"

definition prod_profile :: "string \<rightharpoonup> pyval" where
  "prod_profile = map_of
     [(''LOG_PATH'', PStr ''/var/log/fastapi/''), (''LOG_FILENAME'', PStr ''fastapi.log''),
      (''LOG_LEVEL'', PStr ''Warning''), (''ENABLE_SENTRY'', PBool True),
      (''SENTRY_DSN'', PStr ''https://key@sentry.example/1''),
      (''CACHE_DEFAULT_TIMEOUT'', PInt 60)]"

definition users_bp :: blueprint where
  "users_bp = \<lparr>bp_ident = 1, bp_name = ''users'', url_prefix = Some ''/a''\<rparr>"

definition orders_bp :: blueprint where
  "orders_bp = \<lparr>bp_ident = 2, bp_name = ''orders'', url_prefix = Some ''/a''\<rparr>"

definition example_world :: "string option \<Rightarrow> world" where
  "example_world mode =
     \<lparr>environ = (case mode of None \<Rightarrow> Map.empty | Some m \<Rightarrow> [''FASTAPI_MODE'' \<mapsto> m]),
      fastapi_config = map_of [(''dev'', dev_profile), (''prod'', prod_profile)],
      isdir = (\<lambda>p. False),
      modules =
        [(''fastapi.api.users'', Inr (Some users_bp)),
         (''fastapi.api.schemas'', Inr None),
         (''fastapi.api.orders'', Inr (Some orders_bp))],
      raises = (\<lambda>c. None)\<rparr>"

text \<open>The blueprints of the modules that have one, in discovery order.\<close>

fun discovered :: "(string \<times> (error + blueprint option)) list \<Rightarrow> blueprint list" where
  "discovered [] = []"
| "discovered ((name, Inr (Some bp)) # rest) = bp # discovered rest"
| "discovered ((name, imported) # rest) = discovered rest"

fun imports_ok :: "(string \<times> (error + blueprint option)) list \<Rightarrow> bool" where
  "imports_ok [] = True"
| "imports_ok ((name, Inl e) # rest) = False"
| "imports_ok ((name, Inr m) # rest) = imports_ok rest"

section \<open>Predicates used in the proofs\<close>

text \<open>\<open>keeps fld f\<close>: the function \<open>f\<close> leaves the field \<open>fld\<close> of the state as it
  found it, whether it returns or raises. \<open>traced f cs\<close>: \<open>f\<close> extends the history by a
  prefix of \<open>cs\<close>, and by all of \<open>cs\<close> when it returns.\<close>

definition keeps :: "(app \<Rightarrow> 'a) \<Rightarrow> step \<Rightarrow> bool" where
  "keeps fld f = (\<forall>s. fld (snd (f s)) = fld s)"

definition traced :: "step \<Rightarrow> call list \<Rightarrow> bool" where
  "traced f cs =
     (\<forall>s. \<exists>p. prefix p cs \<and> calls (snd (f s)) = calls s @ p \<and> (fst (f s) = None \<longrightarrow> p = cs))"

text \<open>Reading a decimal numeral back, to state that \<open>str_nat\<close> renders the number it
  is given.\<close>

definition digit_value :: "char \<Rightarrow> nat" where
  "digit_value c = length (takeWhile (\<lambda>d. d \<noteq> c) ''0123456789'')"

definition decimal :: "string \<Rightarrow> nat" where
  "decimal s = foldl (\<lambda>a c. 10 * a + digit_value c) 0 s"

text \<open>
  The calls of \<^verbatim>\<open>init_app\<close> as a list, in the order of the source (lines 160 to 171),
  to speak about the call at a position. \<open>state_after fs s\<close> is the state reached from
  \<open>s\<close> when each function of \<open>fs\<close> in turn has been applied to the state its
  predecessor left; it says nothing about stopping. \<open>run_steps\<close> chains a list of
  functions with \<open>seq\<close>.
\<close>

definition boot_steps :: "world \<Rightarrow> step list" where
  "boot_steps w =
     [init_config w, init_logger w, init_error_handlers, init_hooks, init_db w,
      init_redis w, init_sentry w, init_celery, init_limiter w, init_cache w,
      register_blueprints w, register_signal_handlers w]"

definition state_after :: "step list \<Rightarrow> app \<Rightarrow> app" where
  "state_after fs s = foldl (\<lambda>t f. snd (f t)) s fs"

fun run_steps :: "step list \<Rightarrow> step" where
  "run_steps [] = (\<lambda>s. (None, s))"
| "run_steps [f] = f"
| "run_steps (f # g # fs) = seq f (run_steps (g # fs))"

section \<open>Sequencing, history and frame lemmas\<close>

lemma seq_fst: "fst (seq f g s) = (case fst (f s) of None \<Rightarrow> fst (g (snd (f s))) | Some e \<Rightarrow> Some e)"
  by (simp add: seq_def split: prod.splits option.splits)

lemma seq_snd: "snd (seq f g s) = (case fst (f s) of None \<Rightarrow> snd (g (snd (f s))) | Some e \<Rightarrow> snd (f s))"
  by (simp add: seq_def split: prod.splits option.splits)

lemma keeps_seq: "keeps fld f \<Longrightarrow> keeps fld g \<Longrightarrow> keeps fld (seq f g)"
  by (simp add: keeps_def seq_snd split: option.splits)

lemma traced_seq:
  assumes f: "traced f [c]" and g: "traced g cs"
  shows "traced (seq f g) (c # cs)"
  unfolding traced_def
proof
  fix s
  from f obtain p where p: "prefix p [c]" "calls (snd (f s)) = calls s @ p"
    "fst (f s) = None \<longrightarrow> p = [c]"
    unfolding traced_def by blast
  show "\<exists>q. prefix q (c # cs) \<and> calls (snd (seq f g s)) = calls s @ q \<and>
            (fst (seq f g s) = None \<longrightarrow> q = c # cs)"
  proof (cases "fst (f s)")
    case None
    with p have pc: "p = [c]" by simp
    from g obtain q where q: "prefix q cs" "calls (snd (g (snd (f s)))) = calls (snd (f s)) @ q"
      "fst (g (snd (f s))) = None \<longrightarrow> q = cs"
      unfolding traced_def by blast
    show ?thesis
      using None pc p q by (intro exI [of _ "c # q"]) (simp add: seq_fst seq_snd)
  next
    case (Some e)
    from p(1) have "prefix p (c # cs)"
      by (metis append_Cons append_Nil prefix_def prefix_order.order_trans)
    with Some p show ?thesis
      by (intro exI [of _ p]) (simp add: seq_fst seq_snd)
  qed
qed

lemma traced_single: "(\<And>s. calls (snd (f s)) = calls s @ [c]) \<Longrightarrow> traced f [c]"
  unfolding traced_def by (intro allI exI [of _ "[c]"]) simp

lemma register_loop_keeps_calls: "calls (snd (register_loop ms s)) = calls s"
  by (induction ms s rule: register_loop.induct)
     (auto simp: flask_register_blueprint_def split: sum.splits option.splits prod.splits if_splits)

lemma calls_init_config: "calls (snd (init_config w s)) = calls s @ [InitConfig]"
  by (simp add: init_config_def enter_def Let_def split: option.splits)

lemma calls_init_logger: "calls (snd (init_logger w s)) = calls s @ [InitLogger]"
  by (simp add: init_logger_def enter_def logger_call_def Let_def
      split: option.splits sum.splits pyval.splits prod.splits)

lemma calls_init_error_handlers: "calls (snd (init_error_handlers s)) = calls s @ [InitErrorHandlers]"
  by (simp add: init_error_handlers_def register_error_handler_def enter_def Let_def)

lemma calls_init_hooks: "calls (snd (init_hooks s)) = calls s @ [InitHooks]"
  by (simp add: init_hooks_def enter_def Let_def)

lemma calls_init_db: "calls (snd (init_db w s)) = calls s @ [InitDb]"
  by (simp add: init_db_def enter_def logger_call_def Let_def split: option.splits)

lemma calls_init_redis: "calls (snd (init_redis w s)) = calls s @ [InitRedis]"
  by (simp add: init_redis_def enter_def logger_call_def Let_def split: option.splits)

lemma calls_init_sentry: "calls (snd (init_sentry w s)) = calls s @ [InitSentry]"
  by (simp add: init_sentry_def enter_def logger_call_def Let_def split: option.splits)

lemma calls_init_celery: "calls (snd (init_celery s)) = calls s @ [InitCelery]"
  by (simp add: init_celery_def enter_def logger_call_def Let_def)

lemma calls_init_limiter: "calls (snd (init_limiter w s)) = calls s @ [InitLimiter]"
  by (simp add: init_limiter_def enter_def Let_def split: option.splits)

lemma calls_init_cache: "calls (snd (init_cache w s)) = calls s @ [InitCache]"
  by (simp add: init_cache_def enter_def Let_def split: option.splits)

lemma calls_register_blueprints:
  "calls (snd (register_blueprints w s)) = calls s @ [RegisterBlueprints]"
  by (simp add: register_blueprints_def enter_def Let_def register_loop_keeps_calls
      split: option.splits)

lemma calls_register_signal_handlers:
  "calls (snd (register_signal_handlers w s)) = calls s @ [RegisterSignalHandlers]"
  by (simp add: register_signal_handlers_def enter_def Let_def split: option.splits)

lemmas calls_steps =
  calls_init_config calls_init_logger calls_init_error_handlers calls_init_hooks
  calls_init_db calls_init_redis calls_init_sentry calls_init_celery calls_init_limiter
  calls_init_cache calls_register_blueprints calls_register_signal_handlers

lemma traced_init_app: "traced (init_app w) boot_order"
  unfolding init_app_def boot_order_def
  by (intro traced_seq traced_single calls_steps)

lemma init_app_run_steps: "init_app w = run_steps (boot_steps w)"
  by (simp add: init_app_def boot_steps_def)

lemma state_after_snoc: "state_after (fs @ [f]) s = snd (f (state_after fs s))"
  by (simp add: state_after_def)

lemma state_after_Cons: "state_after (f # fs) s = state_after fs (snd (f s))"
  by (simp add: state_after_def)

lemma run_steps_Cons:
  assumes "fs \<noteq> []"
  shows "run_steps (f # fs) s =
     (case f s of (None, s') \<Rightarrow> run_steps fs s' | (Some e, s') \<Rightarrow> (Some e, s'))"
proof (cases fs)
  case Nil
  with assms show ?thesis by simp
next
  case (Cons g gs)
  have "run_steps (f # g # gs) s = seq f (run_steps (g # gs)) s" by simp
  then show ?thesis unfolding Cons seq_def .
qed

lemma run_steps_stops:
  assumes "fs \<noteq> []"
  shows "\<exists>n<length fs.
           (fs ! n) (state_after (take n fs) s) = run_steps fs s \<and>
           (\<forall>i<n. fst ((fs ! i) (state_after (take i fs) s)) = None) \<and>
           (fst (run_steps fs s) = None \<longrightarrow> Suc n = length fs)"
  using assms
proof (induction fs arbitrary: s)
  case Nil
  then show ?case by simp
next
  case (Cons f fs)
  show ?case
  proof (cases "fs = []")
    case True
    then show ?thesis by (simp add: state_after_def)
  next
    case False
    note rs = run_steps_Cons [OF False, of f s]
    show ?thesis
    proof (cases "fst (f s)")
      case (Some e)
      with rs have "run_steps (f # fs) s = f s" by (cases "f s") simp
      with Some show ?thesis by (intro exI [of _ 0]) (simp add: state_after_def)
    next
      case None
      with rs have eq: "run_steps (f # fs) s = run_steps fs (snd (f s))" by (cases "f s") simp
      from Cons.IH [OF False, of "snd (f s)"] obtain n where nn: "n < length fs \<and>
        (fs ! n) (state_after (take n fs) (snd (f s))) = run_steps fs (snd (f s)) \<and>
        (\<forall>i<n. fst ((fs ! i) (state_after (take i fs) (snd (f s)))) = None) \<and>
        (fst (run_steps fs (snd (f s))) = None \<longrightarrow> Suc n = length fs)" ..
      from nn have n1: "n < length fs" by (rule conjunct1)
      from nn have n2: "(fs ! n) (state_after (take n fs) (snd (f s))) = run_steps fs (snd (f s))"
        by (rule conjunct1 [OF conjunct2])
      from nn have n3: "\<forall>i<n. fst ((fs ! i) (state_after (take i fs) (snd (f s)))) = None"
        by (rule conjunct1 [OF conjunct2 [OF conjunct2]])
      from nn have n4: "fst (run_steps fs (snd (f s))) = None \<longrightarrow> Suc n = length fs"
        by (rule conjunct2 [OF conjunct2 [OF conjunct2]])
      note n = n1 n2 n3 n4
      have "\<forall>i<Suc n. fst (((f # fs) ! i) (state_after (take i (f # fs)) s)) = None"
      proof (intro allI impI)
        fix i assume "i < Suc n"
        then show "fst (((f # fs) ! i) (state_after (take i (f # fs)) s)) = None"
          using None n(3) by (cases i) (simp_all add: state_after_Cons state_after_def)
      qed
      moreover have "((f # fs) ! Suc n) (state_after (take (Suc n) (f # fs)) s) = run_steps (f # fs) s"
        using n2 eq by (simp add: state_after_Cons)
      moreover have "fst (run_steps (f # fs) s) = None \<longrightarrow> Suc (Suc n) = length (f # fs)"
        using n4 eq by simp
      moreover have "Suc n < length (f # fs)" using n1 by simp
      ultimately show ?thesis by (intro exI [of _ "Suc n"] conjI)
    qed
  qed
qed

lemma calls_state_after:
  "list_all2 (\<lambda>f c. \<forall>t. calls (snd (f t)) = calls t @ [c]) fs cs \<Longrightarrow>
   calls (state_after fs s) = calls s @ cs"
  by (induction fs cs arbitrary: s rule: list_all2_induct) (simp_all add: state_after_Cons state_after_def)

lemma boot_steps_tags:
  "list_all2 (\<lambda>f c. \<forall>t. calls (snd (f t)) = calls t @ [c]) (boot_steps w) boot_order"
  by (simp add: boot_steps_def boot_order_def calls_steps)

lemma calls_after_boot_prefix:
  "calls (state_after (take k (boot_steps w)) s) = calls s @ take k boot_order"
  by (rule calls_state_after) (rule list_all2_takeI [OF boot_steps_tags])

text \<open>
  Claim C1, as the code has it. \<^verbatim>\<open>init_app()\<close> calls the functions of the module in one
  fixed order: \<^verbatim>\<open>init_config\<close>, \<^verbatim>\<open>init_logger\<close>, \<^verbatim>\<open>init_error_handlers\<close>, \<^verbatim>\<open>init_hooks\<close>,
  \<^verbatim>\<open>init_db\<close>, \<^verbatim>\<open>init_redis\<close>, \<^verbatim>\<open>init_sentry\<close>, \<^verbatim>\<open>init_celery\<close>, \<^verbatim>\<open>init_limiter\<close>,
  \<^verbatim>\<open>init_cache\<close>, \<^verbatim>\<open>register_blueprints\<close>, \<^verbatim>\<open>register_signal_handlers\<close>. The calls made
  are the first \<open>n + 1\<close> of that list, for some \<open>n\<close>; each of the first \<open>n\<close> returned, on
  the state its predecessor left; and what \<^verbatim>\<open>init_app()\<close> returns or raises, and the
  state it leaves, are those of call \<open>n + 1\<close>. So the first call that raises ends the
  bootstrap with its exception, no later function is called and nothing is done to the
  state after it; and a bootstrap that returns has made all twelve calls, every one of
  which returned. The background-task wiring \<^verbatim>\<open>init_celery\<close> thus runs among the
  support services and before route discovery, and route discovery is followed only by
  the registration of the signal handlers.
\<close>

theorem init_app_order:
  "prefix (calls (snd (init_app w s))) (calls s @ boot_order) \<and>
   (fst (init_app w s) = None \<longrightarrow> calls (snd (init_app w s)) = calls s @ boot_order) \<and>
   (\<exists>n<length boot_order.
      calls (snd (init_app w s)) = calls s @ take (Suc n) boot_order \<and>
      (boot_steps w ! n) (state_after (take n (boot_steps w)) s) = init_app w s \<and>
      (\<forall>i<n. fst ((boot_steps w ! i) (state_after (take i (boot_steps w)) s)) = None) \<and>
      (fst (init_app w s) = None \<longrightarrow> Suc n = length boot_order))"
proof -
  have len: "length (boot_steps w) = length boot_order"
    by (simp add: boot_steps_def boot_order_def)
  have ne: "boot_steps w \<noteq> []" by (simp add: boot_steps_def)
  from run_steps_stops [OF ne, of s] obtain n where nn: "n < length (boot_steps w) \<and>
    (boot_steps w ! n) (state_after (take n (boot_steps w)) s) = run_steps (boot_steps w) s \<and>
    (\<forall>i<n. fst ((boot_steps w ! i) (state_after (take i (boot_steps w)) s)) = None) \<and>
    (fst (run_steps (boot_steps w) s) = None \<longrightarrow> Suc n = length (boot_steps w))" ..
  then have n: "n < length (boot_steps w)"
    "(boot_steps w ! n) (state_after (take n (boot_steps w)) s) = init_app w s"
    "\<forall>i<n. fst ((boot_steps w ! i) (state_after (take i (boot_steps w)) s)) = None"
    "fst (init_app w s) = None \<longrightarrow> Suc n = length (boot_steps w)"
    unfolding init_app_run_steps by simp_all
  have "state_after (take (Suc n) (boot_steps w)) s =
      snd ((boot_steps w ! n) (state_after (take n (boot_steps w)) s))"
    using n(1) by (simp add: take_Suc_conv_app_nth state_after_snoc)
  then have "snd (init_app w s) = state_after (take (Suc n) (boot_steps w)) s"
    by (simp only: n(2))
  then have c: "calls (snd (init_app w s)) = calls s @ take (Suc n) boot_order"
    by (simp only: calls_after_boot_prefix)
  have p: "prefix (calls (snd (init_app w s))) (calls s @ boot_order)"
    unfolding c by (simp add: take_is_prefix)
  have f: "fst (init_app w s) = None \<longrightarrow> calls (snd (init_app w s)) = calls s @ boot_order"
    using n(4) c len by simp
  from n(1) len have nl: "n < length boot_order" by simp
  from n(4) len have last: "fst (init_app w s) = None \<longrightarrow> Suc n = length boot_order" by simp
  from nl c n(2,3) last have "\<exists>n<length boot_order.
      calls (snd (init_app w s)) = calls s @ take (Suc n) boot_order \<and>
      (boot_steps w ! n) (state_after (take n (boot_steps w)) s) = init_app w s \<and>
      (\<forall>i<n. fst ((boot_steps w ! i) (state_after (take i (boot_steps w)) s)) = None) \<and>
      (fst (init_app w s) = None \<longrightarrow> Suc n = length boot_order)"
    by (intro exI [of _ n] conjI)
  with p f show ?thesis by (intro conjI)
qed

lemma from_object_apply:
  "from_object cfg obj k =
     (case obj k of Some v \<Rightarrow> if isupper k then Some v else cfg k | None \<Rightarrow> cfg k)"
  by (simp add: from_object_def)

lemma example_boot_dev: "fst (init_app (example_world None) (new_app Map.empty)) = None"
  apply (simp add: init_app_def seq_def init_config_def init_logger_def
      init_error_handlers_def init_hooks_def init_db_def init_redis_def init_sentry_def
      init_celery_def init_limiter_def init_cache_def enter_def logger_call_def new_app_def
      example_world_def run_mode_def dev_profile_def isupper_def is_ascii_upper_def
      is_ascii_lower_def lower_def lower_char_def LEVELS_def checkLevel_def path_join1_def
      path_join2_def register_error_handler_def Let_def from_object_apply)
  apply (simp add: register_blueprints_def enter_def)
  apply (simp add: flask_register_blueprint_def users_bp_def orders_bp_def)
  apply (simp add: register_signal_handlers_def enter_def)
  done

lemma example_boot_prod: "fst (init_app (example_world (Some ''prod'')) (new_app Map.empty)) = None"
  apply (simp add: init_app_def seq_def init_config_def init_logger_def
      init_error_handlers_def init_hooks_def init_db_def init_redis_def init_sentry_def
      init_celery_def init_limiter_def init_cache_def enter_def logger_call_def new_app_def
      example_world_def run_mode_def prod_profile_def isupper_def is_ascii_upper_def
      is_ascii_lower_def lower_def lower_char_def LEVELS_def checkLevel_def path_join1_def
      path_join2_def register_error_handler_def Let_def from_object_apply)
  apply (simp add: register_blueprints_def enter_def)
  apply (simp add: flask_register_blueprint_def users_bp_def orders_bp_def)
  apply (simp add: register_signal_handlers_def enter_def)
  done

lemma example_boot_calls:
  "calls (snd (init_app (example_world None) (new_app Map.empty))) = boot_order"
proof -
  have "traced (init_app (example_world None)) boot_order" by (rule traced_init_app)
  then obtain p where "calls (snd (init_app (example_world None) (new_app Map.empty))) =
      calls (new_app Map.empty) @ p"
    "fst (init_app (example_world None) (new_app Map.empty)) = None \<longrightarrow> p = boot_order"
    unfolding traced_def by blast
  with example_boot_dev show ?thesis by (simp add: new_app_def)
qed

theorem init_app_order_witness:
  "fst (init_app (example_world None) (new_app Map.empty)) = None \<and>
   calls (snd (init_app (example_world None) (new_app Map.empty))) =
     [InitConfig, InitLogger, InitErrorHandlers, InitHooks, InitDb, InitRedis,
      InitSentry, InitCelery, InitLimiter, InitCache, RegisterBlueprints,
      RegisterSignalHandlers]"
proof -
  have ok: "fst (init_app (example_world None) (new_app Map.empty)) = None"
    by (rule example_boot_dev)
  from init_app_order [of "example_world None" "new_app Map.empty"]
  have "fst (init_app (example_world None) (new_app Map.empty)) = None \<longrightarrow>
      calls (snd (init_app (example_world None) (new_app Map.empty))) =
      calls (new_app Map.empty) @ boot_order"
    by (rule conjunct1 [OF conjunct2])
  with ok have "calls (snd (init_app (example_world None) (new_app Map.empty))) =
      calls (new_app Map.empty) @ boot_order" by simp
  with ok show ?thesis by (simp add: new_app_def boot_order_def)
qed

text \<open>
  Claim C1 as stated puts route discovery before the background-task wiring. In the
  example deployment the bootstrap returns, \<^verbatim>\<open>init_celery\<close> has been called before
  \<^verbatim>\<open>register_blueprints\<close>, and not the other way round.
\<close>

theorem celery_wired_before_routes:
  "fst (init_app (example_world None) (new_app Map.empty)) = None \<and>
   occurs_before InitCelery RegisterBlueprints
     (calls (snd (init_app (example_world None) (new_app Map.empty)))) \<and>
   \<not> occurs_before RegisterBlueprints InitCelery
     (calls (snd (init_app (example_world None) (new_app Map.empty))))"
  by (simp add: example_boot_dev example_boot_calls boot_order_def occurs_before_def)

section \<open>Configuration selection\<close>

lemma register_loop_keeps_config: "config (snd (register_loop ms s)) = config s"
  by (induction ms s rule: register_loop.induct)
     (auto simp: flask_register_blueprint_def split: sum.splits option.splits prod.splits if_splits)

lemma register_loop_keeps_handlers:
  "error_handler_spec (snd (register_loop ms s)) = error_handler_spec s"
  by (induction ms s rule: register_loop.induct)
     (auto simp: flask_register_blueprint_def split: sum.splits option.splits prod.splits if_splits)

lemma keeps_config_steps:
  "keeps config (init_logger w)"
  "keeps config init_error_handlers"
  "keeps config init_hooks"
  "keeps config (init_db w)"
  "keeps config (init_redis w)"
  "keeps config (init_sentry w)"
  "keeps config init_celery"
  "keeps config (init_limiter w)"
  "keeps config (init_cache w)"
  "keeps config (register_blueprints w)"
  "keeps config (register_signal_handlers w)"
  unfolding keeps_def
  by (simp_all add: init_logger_def init_error_handlers_def register_error_handler_def
      init_hooks_def init_db_def init_redis_def init_sentry_def init_celery_def
      init_limiter_def init_cache_def register_blueprints_def register_signal_handlers_def
      register_loop_keeps_config enter_def logger_call_def Let_def
      split: option.splits sum.splits pyval.splits prod.splits)

lemma keeps_handlers_steps:
  "keeps error_handler_spec (init_config w)"
  "keeps error_handler_spec (init_logger w)"
  "keeps error_handler_spec init_hooks"
  "keeps error_handler_spec (init_db w)"
  "keeps error_handler_spec (init_redis w)"
  "keeps error_handler_spec (init_sentry w)"
  "keeps error_handler_spec init_celery"
  "keeps error_handler_spec (init_limiter w)"
  "keeps error_handler_spec (init_cache w)"
  "keeps error_handler_spec (register_blueprints w)"
  "keeps error_handler_spec (register_signal_handlers w)"
  unfolding keeps_def
  by (simp_all add: init_config_def init_logger_def
      init_hooks_def init_db_def init_redis_def init_sentry_def init_celery_def
      init_limiter_def init_cache_def register_blueprints_def register_signal_handlers_def
      register_loop_keeps_handlers enter_def logger_call_def Let_def
      split: option.splits sum.splits pyval.splits prod.splits)

lemma init_app_config: "config (snd (init_app w s)) = config (snd (init_config w s))"
proof -
  have "keeps config
     (seq (init_logger w) (seq init_error_handlers (seq init_hooks (seq (init_db w)
     (seq (init_redis w) (seq (init_sentry w) (seq init_celery (seq (init_limiter w)
     (seq (init_cache w) (seq (register_blueprints w) (register_signal_handlers w)))))))))))"
    by (intro keeps_seq keeps_config_steps)
  then show ?thesis
    unfolding init_app_def keeps_def by (simp add: seq_snd split: option.splits)
qed

lemma init_app_handlers:
  assumes "fst (init_app w s) = None"
  shows "error_handler_spec (snd (init_app w s)) =
     (error_handler_spec s)(HTTPCode 404 \<mapsto> error_404_handler,
        HTTPCode 429 \<mapsto> error_429_handler, ExcClass ''APIError'' \<mapsto> error_handler)"
proof -
  have rest: "keeps error_handler_spec
     (seq init_hooks (seq (init_db w)
     (seq (init_redis w) (seq (init_sentry w) (seq init_celery (seq (init_limiter w)
     (seq (init_cache w) (seq (register_blueprints w) (register_signal_handlers w)))))))))"
    by (intro keeps_seq keeps_handlers_steps)
  have eh: "error_handler_spec (snd (init_error_handlers t)) =
      (error_handler_spec t)(HTTPCode 404 \<mapsto> error_404_handler,
        HTTPCode 429 \<mapsto> error_429_handler, ExcClass ''APIError'' \<mapsto> error_handler)" for t
    by (simp add: init_error_handlers_def register_error_handler_def enter_def Let_def)
  have ok: "fst (init_error_handlers t) = None" for t
    by (simp add: init_error_handlers_def Let_def)
  from assms rest keeps_handlers_steps(1,2) [of w] show ?thesis
    unfolding init_app_def keeps_def
    by (simp add: seq_snd seq_fst eh ok split: option.splits)
qed

text \<open>
  Claim C5. When \<^verbatim>\<open>FASTAPI_MODE\<close> names a profile that the table \<^verbatim>\<open>config\<close> does not
  have, \<^verbatim>\<open>init_app()\<close> raises \<^verbatim>\<open>KeyError\<close> in \<^verbatim>\<open>init_config\<close>. The state it leaves is
  the state it started from with only the entry of \<^verbatim>\<open>init_config\<close> in the history: no
  other function has been called, the logger has no new handler and nothing was logged.
\<close>

theorem init_app_unknown_mode:
  assumes "environ w ''FASTAPI_MODE'' = Some m" and "fastapi_config w m = None"
  shows "init_app w s = (Some (KeyError m), enter InitConfig s) \<and>
         logger_handlers (snd (init_app w s)) = logger_handlers s \<and>
         log (snd (init_app w s)) = log s \<and>
         calls (snd (init_app w s)) = calls s @ [InitConfig]"
proof -
  from assms have "init_config w s = (Some (KeyError m), enter InitConfig s)"
    by (simp add: init_config_def run_mode_def Let_def)
  then have "init_app w s = (Some (KeyError m), enter InitConfig s)"
    by (simp add: init_app_def seq_def)
  then show ?thesis by (simp add: enter_def)
qed

theorem init_app_unknown_mode_witness:
  "init_app (example_world (Some ''bogus'')) (new_app Map.empty) =
     (Some (KeyError ''bogus''), enter InitConfig (new_app Map.empty)) \<and>
   logger_handlers (snd (init_app (example_world (Some ''bogus'')) (new_app Map.empty))) = [] \<and>
   log (snd (init_app (example_world (Some ''bogus'')) (new_app Map.empty))) = [] \<and>
   calls (snd (init_app (example_world (Some ''bogus'')) (new_app Map.empty))) = [InitConfig]"
proof -
  have e: "environ (example_world (Some ''bogus'')) ''FASTAPI_MODE'' = Some ''bogus''"
    by (simp add: example_world_def)
  have c: "fastapi_config (example_world (Some ''bogus'')) ''bogus'' = None"
    by (simp add: example_world_def)
  from init_app_unknown_mode [OF e c, of "new_app Map.empty"] show ?thesis
    by (simp add: new_app_def enter_def)
qed

text \<open>
  Claim C10. When \<^verbatim>\<open>FASTAPI_MODE\<close> is not in the environment and the table has a
  profile \<^verbatim>\<open>'dev'\<close>, \<^verbatim>\<open>init_config\<close> returns with that profile loaded, and the
  bootstrap goes on: \<^verbatim>\<open>init_logger\<close> is the next call.
\<close>

theorem init_config_default_dev:
  assumes "environ w ''FASTAPI_MODE'' = None" and "fastapi_config w ''dev'' = Some obj"
  shows "init_config w s = (None, (enter InitConfig s)\<lparr>config := from_object (config s) obj\<rparr>) \<and>
         prefix (calls s @ [InitConfig, InitLogger]) (calls (snd (init_app w s)))"
proof -
  from assms have ic: "init_config w s = (None, (enter InitConfig s)\<lparr>config := from_object (config s) obj\<rparr>)"
    by (simp add: init_config_def run_mode_def Let_def enter_def)
  let ?rest = "seq init_error_handlers (seq init_hooks (seq (init_db w)
     (seq (init_redis w) (seq (init_sentry w) (seq init_celery (seq (init_limiter w)
     (seq (init_cache w) (seq (register_blueprints w) (register_signal_handlers w)))))))))"
  let ?s1 = "snd (init_config w s)"
  let ?s2 = "snd (init_logger w ?s1)"
  have c2: "calls ?s2 = calls s @ [InitConfig, InitLogger]"
    by (simp add: calls_init_logger calls_init_config)
  have "traced ?rest (tl (tl boot_order))"
    unfolding boot_order_def list.sel by (intro traced_seq traced_single calls_steps)
  then have pre: "prefix (calls t) (calls (snd (?rest t)))" for t
    unfolding traced_def by (metis prefixI)
  have "snd (init_app w s) = (case fst (init_logger w ?s1) of None \<Rightarrow> snd (?rest ?s2) | Some e \<Rightarrow> ?s2)"
  proof -
    from ic have "fst (init_config w s) = None" by simp
    then show ?thesis unfolding init_app_def by (simp add: seq_snd)
  qed
  then have "prefix (calls ?s2) (calls (snd (init_app w s)))"
    using pre [of ?s2] by (simp split: option.splits)
  with c2 ic show ?thesis by simp
qed

theorem init_config_default_dev_witness:
  "init_config (example_world None) (new_app Map.empty) =
     (None, (enter InitConfig (new_app Map.empty))\<lparr>config := from_object Map.empty dev_profile\<rparr>) \<and>
   prefix [InitConfig, InitLogger] (calls (snd (init_app (example_world None) (new_app Map.empty)))) \<and>
   fst (init_app (example_world None) (new_app Map.empty)) = None"
proof -
  have e: "environ (example_world None) ''FASTAPI_MODE'' = None"
    by (simp add: example_world_def)
  have c: "fastapi_config (example_world None) ''dev'' = Some dev_profile"
    by (simp add: example_world_def)
  from init_config_default_dev [OF e c, of "new_app Map.empty"] example_boot_dev show ?thesis
    by (simp add: new_app_def)
qed

section \<open>Statement instrumentation, Sentry and deferred work\<close>

lemma digit_char_in: "d < 10 \<Longrightarrow> digit_char d \<in> set ''0123456789''"
  unfolding digit_char_def by (rule nth_mem) simp

lemma digit_value_digit_char: "d < 10 \<Longrightarrow> digit_value (digit_char d) = d"
proof -
  assume "d < 10"
  then have "d = 0 \<or> d = 1 \<or> d = 2 \<or> d = 3 \<or> d = 4 \<or> d = 5 \<or> d = 6 \<or> d = 7 \<or>
      d = 8 \<or> d = 9"
    by arith
  then show ?thesis
    by (elim disjE) (simp_all add: digit_char_def digit_value_def)
qed

lemma str_nat_digits: "set (str_nat n) \<subseteq> set ''0123456789''"
proof (induction n rule: str_nat.induct)
  case (1 n)
  show ?case
  proof (cases "n < 10")
    case True
    then show ?thesis using digit_char_in [of n] by (subst str_nat.simps) simp
  next
    case False
    then have "set (str_nat (n div 10)) \<subseteq> set ''0123456789''" using "1" by simp
    moreover have "digit_char (n mod 10) \<in> set ''0123456789''"
      by (rule digit_char_in) simp
    ultimately show ?thesis using False by (subst str_nat.simps) simp
  qed
qed

lemma decimal_snoc: "decimal (s @ [c]) = 10 * decimal s + digit_value c"
  by (simp add: decimal_def)

lemma decimal_str_nat: "decimal (str_nat n) = n"
proof (induction n rule: str_nat.induct)
  case (1 n)
  show ?case
  proof (cases "n < 10")
    case True
    then show ?thesis
      by (subst str_nat.simps) (simp add: decimal_def digit_value_digit_char)
  next
    case False
    then have "decimal (str_nat (n div 10)) = n div 10" using "1" by simp
    then show ?thesis using False
      by (subst str_nat.simps) (simp add: decimal_snoc digit_value_digit_char)
  qed
qed

lemma str_int_nonneg:
  assumes "0 \<le> i"
  shows "str_int i = str_nat (nat i)" and "CHR ''-'' \<notin> set (str_int i)"
    and "decimal (str_int i) = nat i"
proof -
  from assms show eq: "str_int i = str_nat (nat i)" by (simp add: str_int_def)
  from str_nat_digits [of "nat i"] show "CHR ''-'' \<notin> set (str_int i)"
    unfolding eq by auto
  show "decimal (str_int i) = nat i" unfolding eq by (rule decimal_str_nat)
qed

lemma replace_newlines_props:
  "length (replace_newlines st) = length st"
  "CHR 0x0A \<notin> set (replace_newlines st)"
  "list_all2 (\<lambda>c d. d = (if c = CHR 0x0A then CHR '' '' else c)) st (replace_newlines st)"
  by (auto simp: replace_newlines_def list_all2_conv_all_nth)

lemma render_dict_foldl:
  "foldl (\<lambda>str_params (name, val). str_params @ name @ '':'' @ py_str val @ '', '') acc items =
   acc @ concat (map (\<lambda>(name, val). name @ '':'' @ py_str val @ '', '') items)"
  by (induction items arbitrary: acc) (auto simp: case_prod_beta)

lemma after_before:
  "after_cursor_execute t1 conn cursor statement params
     (before_cursor_execute t0 conn' cursor' statement' params' ctx em') em s =
   (None, logger_call DEBUG
      (Line (sql_log (t1 - t0) (replace_newlines statement) (render_params params))) s)"
  by (simp add: after_cursor_execute_def before_cursor_execute_def Let_def)

text \<open>
  Claim C8, as the code has it. For one statement, the before-hook followed by the
  after-hook returns and adds exactly one record to the logger, at debug severity. Its
  text is \<^verbatim>\<open>[cost: Nms]sql: S, params: P\<close> where \<open>N\<close> is the after-timestamp minus the
  before-timestamp in integer milliseconds, \<open>S\<close> is the statement with every newline
  replaced by a space (same length, no newline left) and \<open>P\<close> renders the parameters:
  \<^verbatim>\<open>name:value, \<close> for each item of a dict, the values joined by \<^verbatim>\<open>, \<close> for a tuple.
  The cost is rendered as an unsigned decimal numeral of its value whenever the
  after-timestamp is not earlier than the before-timestamp; the wall clock the code
  reads does not promise that.
\<close>

theorem instrumentation_log_line:
  "after_cursor_execute t1 conn cursor statement params
     (before_cursor_execute t0 conn cursor statement params ctx em) em s =
     (None, s\<lparr>log := log s @
        [(DEBUG, Line (''[cost: '' @ str_int (t1 - t0) @ ''ms]sql: '' @
                       replace_newlines statement @ '', params: '' @ render_params params))]\<rparr>) \<and>
   (t0 \<le> t1 \<longrightarrow>
      decimal (str_int (t1 - t0)) = nat (t1 - t0) \<and> CHR ''-'' \<notin> set (str_int (t1 - t0))) \<and>
   length (replace_newlines statement) = length statement \<and>
   CHR 0x0A \<notin> set (replace_newlines statement) \<and>
   list_all2 (\<lambda>c d. d = (if c = CHR 0x0A then CHR '' '' else c))
     statement (replace_newlines statement) \<and>
   render_params (ParamsDict items) =
     concat (map (\<lambda>(name, val). name @ '':'' @ py_str val @ '', '') items) \<and>
   render_params (ParamsTuple vals) = join '', '' (map py_str vals)"
proof -
  have "t0 \<le> t1 \<longrightarrow>
      decimal (str_int (t1 - t0)) = nat (t1 - t0) \<and> CHR ''-'' \<notin> set (str_int (t1 - t0))"
    using str_int_nonneg(2,3) [of "t1 - t0"] by simp
  moreover have "render_params (ParamsDict items) =
     concat (map (\<lambda>(name, val). name @ '':'' @ py_str val @ '', '') items)"
    using render_dict_foldl [of "[]" items] by (simp add: render_params_def)
  moreover have "render_params (ParamsTuple vals) = join '', '' (map py_str vals)"
    by (simp add: render_params_def)
  ultimately show ?thesis
    by (simp add: after_before logger_call_def sql_log_def replace_newlines_props)
qed

theorem instrumentation_log_line_witness:
  "(1000::int) \<le> 1002 \<and>
   after_cursor_execute 1002 () () (''SELECT *'' @ [CHR 0x0A] @ ''FROM t WHERE a = ?'')
     (ParamsTuple [PInt 5, PNone])
     (before_cursor_execute 1000 () () (''SELECT *'' @ [CHR 0x0A] @ ''FROM t WHERE a = ?'')
        (ParamsTuple [PInt 5, PNone]) \<lparr>query_start_ts = None\<rparr> False)
     False (new_app Map.empty) =
   (None, (new_app Map.empty)\<lparr>log :=
      [(DEBUG, Line ''[cost: 2ms]sql: SELECT * FROM t WHERE a = ?, params: 5, None'')]\<rparr>) \<and>
   decimal ''2'' = 2 \<and>
   render_params (ParamsDict [(''a'', PInt 5), (''b'', PStr ''x'')]) = ''a:5, b:x, ''"
proof -
  have le: "(1000::int) \<le> 1002" by simp
  have r: "str_int 2 = ''2''" "str_int 5 = ''5''"
    by (simp_all add: str_int_def str_nat.simps digit_char_def)
  from instrumentation_log_line [where ?t1.0 = 1002 and ?t0.0 = 1000 and conn = "()"
      and cursor = "()" and statement = "''SELECT *'' @ [CHR 0x0A] @ ''FROM t WHERE a = ?''"
      and params = "ParamsTuple [PInt 5, PNone]" and ctx = "\<lparr>query_start_ts = None\<rparr>"
      and em = False and s = "new_app Map.empty"
      and items = "[(''a'', PInt 5), (''b'', PStr ''x'')]" and vals = "[]"] le
  show ?thesis
    by (simp add: r render_params_def replace_newlines_def new_app_def)
qed

text \<open>
  Claim C8 as stated makes the cost non-negative for every executed statement. With
  the clock reading 5 at the before-hook and 3 at the after-hook, the logged cost is
  \<open>-2\<close>.
\<close>

theorem negative_cost_logged:
  "log (snd (after_cursor_execute 3 () () ''SELECT 1'' (ParamsTuple [])
     (before_cursor_execute 5 () () ''SELECT 1'' (ParamsTuple []) \<lparr>query_start_ts = None\<rparr> False)
     False (new_app Map.empty))) =
   [(DEBUG, Line ''[cost: -2ms]sql: SELECT 1, params: '')]"
  by (simp add: after_before logger_call_def sql_log_def render_params_def replace_newlines_def
      new_app_def str_int_def str_nat.simps digit_char_def)

text \<open>
  Claim C3, as the code has it. The after-hook has no exception handling. On the
  context the before-hook has stamped it returns, for every statement and every
  parameter shape, and all it does is one debug call on the logger: no other part of
  the state changes and nothing is returned to the statement. On a context without
  \<^verbatim>\<open>query_start_ts\<close> the \<^verbatim>\<open>AttributeError\<close> propagates to the caller and nothing is
  logged.
\<close>

theorem after_hook_raising:
  "fst (after_cursor_execute t1 conn cursor statement params
          (before_cursor_execute t0 conn cursor statement params ctx em) em s) = None \<and>
   (\<exists>m. snd (after_cursor_execute t1 conn cursor statement params
          (before_cursor_execute t0 conn cursor statement params ctx em) em s) =
        s\<lparr>log := log s @ [(DEBUG, Line m)]\<rparr>) \<and>
   after_cursor_execute t1 conn cursor statement params (ctx\<lparr>query_start_ts := None\<rparr>) em s =
     (Some (AttributeError ''query_start_ts''), s)"
proof -
  have "after_cursor_execute t1 conn cursor statement params (ctx\<lparr>query_start_ts := None\<rparr>) em s =
     (Some (AttributeError ''query_start_ts''), s)"
    by (simp add: after_cursor_execute_def)
  moreover have "\<exists>m. logger_call DEBUG
      (Line (sql_log (t1 - t0) (replace_newlines statement) (render_params params))) s =
      s\<lparr>log := log s @ [(DEBUG, Line m)]\<rparr>"
    unfolding logger_call_def by (rule exI) (rule refl)
  ultimately show ?thesis
    by (simp add: after_before)
qed

text \<open>
  Claim C3 as stated lets the after-hook never raise, for every context. On a context
  that carries no \<^verbatim>\<open>query_start_ts\<close> it raises \<^verbatim>\<open>AttributeError\<close>, and the failure is
  not logged.
\<close>

theorem after_hook_attribute_error:
  "fst (after_cursor_execute 1002 () () ''SELECT 1'' (ParamsTuple [])
     \<lparr>query_start_ts = None\<rparr> False (new_app Map.empty)) = Some (AttributeError ''query_start_ts'') \<and>
   log (snd (after_cursor_execute 1002 () () ''SELECT 1'' (ParamsTuple [])
     \<lparr>query_start_ts = None\<rparr> False (new_app Map.empty))) = []"
  by (simp add: after_cursor_execute_def new_app_def)

lemma init_sentry_always:
  "sentry_inits (snd (init_sentry w s)) =
     sentry_inits s @ [case config s ''SENTRY_DSN'' of None \<Rightarrow> PNone | Some v \<Rightarrow> v]"
  "raises w SentryInit = None \<Longrightarrow> fst (init_sentry w s) = None"
  "raises w SentryInit = None \<Longrightarrow> log (snd (init_sentry w s)) = log s @ [(INFO, SentryReady)]"
  by (simp_all add: init_sentry_def enter_def logger_call_def Let_def split: option.splits)

text \<open>
  Claim C9. When \<^verbatim>\<open>ENABLE_SENTRY\<close> is false or absent, \<^verbatim>\<open>init_sentry\<close> still invokes
  \<^verbatim>\<open>Sentry(app, dsn=...)\<close> with the value of \<^verbatim>\<open>SENTRY_DSN\<close> (\<^verbatim>\<open>None\<close> when the key is
  missing), and, when the construction does not raise, returns after logging success.
\<close>

theorem init_sentry_when_disabled:
  assumes "\<not> truthy (case config s ''ENABLE_SENTRY'' of None \<Rightarrow> PBool False | Some v \<Rightarrow> v)"
  shows "sentry_inits (snd (init_sentry w s)) =
           sentry_inits s @ [case config s ''SENTRY_DSN'' of None \<Rightarrow> PNone | Some v \<Rightarrow> v] \<and>
         (raises w SentryInit = None \<longrightarrow>
            fst (init_sentry w s) = None \<and>
            log (snd (init_sentry w s)) = log s @ [(INFO, SentryReady)])"
  using init_sentry_always [of w s] by simp

theorem init_sentry_when_disabled_witness:
  "\<not> truthy (case config (new_app dev_profile) ''ENABLE_SENTRY'' of
               None \<Rightarrow> PBool False | Some v \<Rightarrow> v) \<and>
   raises (example_world None) SentryInit = None \<and>
   sentry_inits (snd (init_sentry (example_world None) (new_app dev_profile))) = [PNone] \<and>
   fst (init_sentry (example_world None) (new_app dev_profile)) = None \<and>
   log (snd (init_sentry (example_world None) (new_app dev_profile))) = [(INFO, SentryReady)]"
proof -
  have d: "\<not> truthy (case config (new_app dev_profile) ''ENABLE_SENTRY'' of
               None \<Rightarrow> PBool False | Some v \<Rightarrow> v)"
    by (simp add: new_app_def dev_profile_def)
  have r: "raises (example_world None) SentryInit = None"
    by (simp add: example_world_def)
  from init_sentry_when_disabled [OF d, of "example_world None"] d r show ?thesis
    by (simp add: new_app_def dev_profile_def)
qed

lemma task_call_stack: "snd (task_call c a run args stack) = stack"
  by (induction c arbitrary: stack) (simp_all add: Let_def case_prod_beta)

text \<open>
  Claim C6, as the code has it. \<^verbatim>\<open>init_celery\<close> replaces \<^verbatim>\<open>celery.Task\<close> by
  \<^verbatim>\<open>ContextTask\<close>. A unit called through \<^verbatim>\<open>ContextTask\<close> in a process whose module-level
  \<^verbatim>\<open>app\<close> is \<open>a\<close> sees a context of \<open>a\<close> on top of the ambient stack for the duration of
  the call, whatever the stack held before: the context is made from the application
  of the executing process, not carried from where the unit was scheduled. The unit's
  result, a value or an exception, is passed on unchanged, and the stack after the call
  is the stack before it, on both exits.
\<close>

theorem context_task_call:
  "celery_Task (snd (init_celery s)) = ContextTask (celery_Task s) \<and>
   task_call (ContextTask TaskBase) a run args stack = (run (a # stack) args, stack) \<and>
   fst (task_call (ContextTask c) a run args stack) = fst (task_call c a run args (a # stack)) \<and>
   snd (task_call (ContextTask c) a run args stack) = stack"
proof -
  have "snd (task_call c a run args (a # stack)) = a # stack" by (rule task_call_stack)
  then show ?thesis
    by (simp add: init_celery_def enter_def logger_call_def Let_def case_prod_beta)
qed

section \<open>Context of deferred work, route discovery and error dispatch\<close>

lemma config_init_config:
  "config (snd (init_config w s)) =
     (case fastapi_config w (run_mode w) of
        None \<Rightarrow> config s
      | Some obj \<Rightarrow> from_object (config s) obj)"
  by (simp add: init_config_def enter_def Let_def split: option.splits)

lemma example_config_dev:
  "config (snd (init_app (example_world None) (new_app Map.empty))) =
     from_object Map.empty dev_profile"
  by (simp add: init_app_config config_init_config run_mode_def example_world_def new_app_def)

lemma example_config_prod:
  "config (snd (init_app (example_world (Some ''prod'')) (new_app Map.empty))) =
     from_object Map.empty prod_profile"
  by (simp add: init_app_config config_init_config run_mode_def example_world_def new_app_def)

lemma isupper_timeout_key: "isupper ''CACHE_DEFAULT_TIMEOUT''"
  by (simp add: isupper_def is_ascii_upper_def is_ascii_lower_def)

lemma read_config_top:
  "fst (task_call c a (read_config k) args (a # stack)) = read_config k [a] args"
  by (induction c arbitrary: stack) (simp_all add: read_config_def Let_def case_prod_beta)

lemma read_config_context_task:
  "fst (task_call (ContextTask c) a (read_config k) args stack) = read_config k [a] args"
  by (simp add: Let_def case_prod_beta read_config_top)

text \<open>
  Claim C7, as the code has it. Nothing is captured when a unit is scheduled:
  \<^verbatim>\<open>ContextTask\<close> pushes the context of the \<^verbatim>\<open>app\<close> of the process that executes the
  unit. A unit that reads a configuration value therefore observes the configuration
  of the executing process; it is the value the scheduling process observes whenever
  the two processes were bootstrapped from the same initial configuration with the
  same discriminator and the same profiles table.
\<close>

theorem config_round_trip:
  assumes "run_mode w' = run_mode w" and "fastapi_config w' = fastapi_config w"
    and "config s' = config s"
  shows "fst (task_call (ContextTask c) (snd (init_app w' s')) (read_config k) args stack) =
         read_config k [snd (init_app w s)] args"
proof -
  from assms have "config (snd (init_app w' s')) = config (snd (init_app w s))"
    by (simp add: init_app_config config_init_config split: option.splits)
  then have "read_config k [snd (init_app w' s')] args = read_config k [snd (init_app w s)] args"
    by (simp add: read_config_def)
  then show ?thesis by (simp only: read_config_context_task)
qed

theorem config_round_trip_witness:
  "run_mode (example_world None) = ''dev'' \<and>
   fst (task_call (ContextTask TaskBase) (snd (init_app (example_world None) (new_app Map.empty)))
          (read_config ''CACHE_DEFAULT_TIMEOUT'') [] []) = Inr (PInt 300) \<and>
   read_config ''CACHE_DEFAULT_TIMEOUT'' [snd (init_app (example_world None) (new_app Map.empty))] [] =
     Inr (PInt 300)"
proof -
  have v: "read_config ''CACHE_DEFAULT_TIMEOUT''
      [snd (init_app (example_world None) (new_app Map.empty))] [] = Inr (PInt 300)"
    by (simp add: read_config_def example_config_dev from_object_apply isupper_timeout_key
        dev_profile_def)
  have m: "run_mode (example_world None) = ''dev''"
    by (simp add: run_mode_def example_world_def)
  from config_round_trip [of "example_world None" "example_world None" "new_app Map.empty"
      "new_app Map.empty" TaskBase "''CACHE_DEFAULT_TIMEOUT''" "[]" "[]"] v m
  show ?thesis by simp
qed

text \<open>
  Claim C7 as stated holds for every worker. With the scheduling process bootstrapped
  under \<^verbatim>\<open>dev\<close> and the worker process under \<^verbatim>\<open>prod\<close>, both bootstraps return, the
  scheduling side reads 300 and the unit executed by the worker reads 60.
\<close>

theorem worker_reads_its_own_config:
  "fst (init_app (example_world None) (new_app Map.empty)) = None \<and>
   fst (init_app (example_world (Some ''prod'')) (new_app Map.empty)) = None \<and>
   read_config ''CACHE_DEFAULT_TIMEOUT'' [snd (init_app (example_world None) (new_app Map.empty))] [] =
     Inr (PInt 300) \<and>
   fst (task_call (ContextTask TaskBase)
          (snd (init_app (example_world (Some ''prod'')) (new_app Map.empty)))
          (read_config ''CACHE_DEFAULT_TIMEOUT'') [] []) = Inr (PInt 60)"
  by (simp add: example_boot_dev example_boot_prod read_config_def example_config_dev
      example_config_prod from_object_apply isupper_timeout_key dev_profile_def prod_profile_def)

lemma isupper_level_key: "isupper ''LOG_LEVEL''"
  by (simp add: isupper_def is_ascii_upper_def is_ascii_lower_def)

text \<open>
  Claim C6 as stated has the unit run under the context carried from scheduling. Let
  the scheduling process be bootstrapped under \<^verbatim>\<open>dev\<close> and the worker process under
  \<^verbatim>\<open>prod\<close>. Read in the scheduling process's context, \<^verbatim>\<open>LOG_LEVEL\<close> is \<^verbatim>\<open>DEBUG\<close>. Even
  when that context is the ambient one at the moment the worker calls the unit, the
  unit runs under the worker's own context and reads \<^verbatim>\<open>Warning\<close>; afterwards the
  stack is as it was.
\<close>

theorem context_is_not_carried:
  "read_config ''LOG_LEVEL'' [snd (init_app (example_world None) (new_app Map.empty))] [] =
     Inr (PStr ''DEBUG'') \<and>
   task_call (ContextTask TaskBase)
     (snd (init_app (example_world (Some ''prod'')) (new_app Map.empty)))
     (read_config ''LOG_LEVEL'') []
     [snd (init_app (example_world None) (new_app Map.empty))] =
   (Inr (PStr ''Warning''), [snd (init_app (example_world None) (new_app Map.empty))])"
  by (simp add: read_config_def example_config_dev example_config_prod from_object_apply
      isupper_level_key dev_profile_def prod_profile_def)

lemma register_loop_all:
  assumes "imports_ok ms" and "distinct (map bp_name (discovered ms))"
    and "\<forall>bp\<in>set (discovered ms). blueprints s (bp_name bp) = None"
  shows "fst (register_loop ms s) = None \<and>
         blueprint_order (snd (register_loop ms s)) = blueprint_order s @ discovered ms \<and>
         blueprints (snd (register_loop ms s)) =
           foldl (\<lambda>m bp. m(bp_name bp \<mapsto> bp)) (blueprints s) (discovered ms)"
  using assms
proof (induction ms arbitrary: s)
  case Nil
  then show ?case by simp
next
  case (Cons x ms)
  obtain name imported where x: "x = (name, imported)" by (cases x)
  show ?case
  proof (cases imported)
    case (Inl e)
    with Cons.prems x show ?thesis by simp
  next
    case (Inr m)
    show ?thesis
    proof (cases m)
      case None
      with Inr x Cons show ?thesis by simp
    next
      case (Some bp)
      let ?s' = "s\<lparr>blueprints := (blueprints s)(bp_name bp \<mapsto> bp),
                    blueprint_order := blueprint_order s @ [bp]\<rparr>"
      from Cons.prems x Inr Some have free: "blueprints s (bp_name bp) = None" by simp
      then have step: "flask_register_blueprint bp s = (None, ?s')"
        by (simp add: flask_register_blueprint_def)
      from Cons.prems x Inr Some
      have ok: "imports_ok ms" and dist: "distinct (map bp_name (discovered ms))"
        and fresh: "bp_name bp \<notin> bp_name ` set (discovered ms)"
        and unbound: "\<forall>b\<in>set (discovered ms). blueprints s (bp_name b) = None"
        by auto
      have "\<forall>b\<in>set (discovered ms). blueprints ?s' (bp_name b) = None"
      proof
        fix b assume b: "b \<in> set (discovered ms)"
        then have "bp_name b \<in> bp_name ` set (discovered ms)" by (rule imageI)
        with fresh have "bp_name b \<noteq> bp_name bp" by metis
        with b unbound show "blueprints ?s' (bp_name b) = None" by simp
      qed
      from Cons.IH [OF ok dist this] step x Inr Some show ?thesis by simp
    qed
  qed
qed

lemma foldl_bind_lookup:
  "distinct (map bp_name bs) \<Longrightarrow> b \<in> set bs \<Longrightarrow>
   foldl (\<lambda>m bp. m(bp_name bp \<mapsto> bp)) m0 bs (bp_name b) = Some b"
proof (induction bs arbitrary: b rule: rev_induct)
  case Nil
  then show ?case by simp
next
  case (snoc x xs)
  show ?case
  proof (cases "b = x")
    case True
    then show ?thesis by simp
  next
    case False
    with snoc.prems have in_xs: "b \<in> set xs" and dist: "distinct (map bp_name xs)"
      and fresh: "bp_name x \<notin> bp_name ` set xs"
      by auto
    from in_xs have "bp_name b \<in> bp_name ` set xs" by (rule imageI)
    with fresh have "bp_name b \<noteq> bp_name x" by metis
    with in_xs dist snoc.IH show ?thesis by simp
  qed
qed

text \<open>
  Claim C2, as the code has it. \<^verbatim>\<open>register_blueprints\<close> makes no check of path
  prefixes. When \<^verbatim>\<open>find_modules\<close> and the imports succeed, and the blueprints found
  have distinct names that are not yet bound, discovery returns and has registered the
  blueprint of every module that has one, in discovery order, whatever their prefixes;
  the modules without \<^verbatim>\<open>bp\<close> contribute nothing and raise nothing.
\<close>

theorem route_discovery_registers_all:
  assumes "raises w FindModules = None" and "imports_ok (modules w)"
    and "distinct (map bp_name (discovered (modules w)))"
    and "list_all (\<lambda>bp. blueprints s (bp_name bp) = None) (discovered (modules w))"
  shows "fst (register_blueprints w s) = None \<and>
         blueprint_order (snd (register_blueprints w s)) =
           blueprint_order s @ discovered (modules w) \<and>
         list_all (\<lambda>bp. blueprints (snd (register_blueprints w s)) (bp_name bp) = Some bp)
           (discovered (modules w))"
proof -
  let ?s = "enter RegisterBlueprints s"
  from assms(4) have "\<forall>bp\<in>set (discovered (modules w)). blueprints ?s (bp_name bp) = None"
    by (simp add: list_all_iff enter_def)
  from register_loop_all [OF assms(2,3) this] assms(1,3) show ?thesis
    by (simp add: register_blueprints_def Let_def list_all_iff foldl_bind_lookup enter_def)
qed

theorem route_discovery_registers_all_witness:
  "raises (example_world None) FindModules = None \<and>
   discovered (modules (example_world None)) = [users_bp, orders_bp] \<and>
   fst (register_blueprints (example_world None) (new_app Map.empty)) = None \<and>
   blueprint_order (snd (register_blueprints (example_world None) (new_app Map.empty))) =
     [users_bp, orders_bp] \<and>
   blueprints (snd (register_blueprints (example_world None) (new_app Map.empty))) ''users'' =
     Some users_bp \<and>
   blueprints (snd (register_blueprints (example_world None) (new_app Map.empty))) ''orders'' =
     Some orders_bp"
proof -
  have d: "discovered (modules (example_world None)) = [users_bp, orders_bp]"
    by (simp add: example_world_def)
  have a: "raises (example_world None) FindModules = None" "imports_ok (modules (example_world None))"
    by (simp_all add: example_world_def)
  have b: "distinct (map bp_name (discovered (modules (example_world None))))"
    by (simp add: d users_bp_def orders_bp_def)
  have c: "list_all (\<lambda>bp. blueprints (new_app Map.empty) (bp_name bp) = None)
      (discovered (modules (example_world None)))"
    by (simp add: d new_app_def)
  from route_discovery_registers_all [OF a b c] d a(1) show ?thesis
    by (simp add: new_app_def users_bp_def orders_bp_def)
qed

text \<open>
  Claim C2 as stated makes a second module under an already bound prefix fatal. In
  the example deployment two modules claim the prefix \<^verbatim>\<open>/a\<close>; discovery returns and
  both are registered.
\<close>

theorem same_prefix_both_registered:
  "fst (register_blueprints (example_world None) (new_app Map.empty)) = None \<and>
   map url_prefix (blueprint_order (snd (register_blueprints (example_world None)
     (new_app Map.empty)))) = [Some ''/a'', Some ''/a'']"
  apply (simp add: register_blueprints_def enter_def example_world_def new_app_def)
  apply (simp add: flask_register_blueprint_def users_bp_def orders_bp_def)
  done

text \<open>
  What Flask does reject is a second blueprint object under a name that is already
  bound; discovery stops there.
\<close>

lemma blueprint_name_collision:
  assumes "blueprints s (bp_name bp) = Some old" and "bp_ident old \<noteq> bp_ident bp"
  shows "register_loop ((name, Inr (Some bp)) # rest) s =
           (Some (AssertionError ''A blueprint name collision occurred''), s)"
  using assms by (simp add: flask_register_blueprint_def)

text \<open>
  Claim C4, as the code has it. After a bootstrap that returns, the handlers are the
  three that \<^verbatim>\<open>init_error_handlers\<close> registers. A failure outside them is never dropped,
  and is answered by Flask's default: an HTTP exception by the response of its own
  status code, any other exception by the generic response with status 500, unless the
  application propagates exceptions, in which case it is raised again.
\<close>

theorem unmapped_failures:
  assumes "fst (init_app w (new_app d)) = None"
  shows "flask_handle_user_exception p (snd (init_app w (new_app d))) f =
     (if f = HTTPException 404 then Handled error_404_handler
      else if f = HTTPException 429 then Handled error_429_handler
      else if f = UserException ''APIError'' then Handled error_handler
      else (case f of
              HTTPException code \<Rightarrow> DefaultResponse code
            | UserException cls \<Rightarrow> if p then Reraised else DefaultResponse 500))"
proof -
  have "error_handler_spec (snd (init_app w (new_app d))) =
     [HTTPCode 404 \<mapsto> error_404_handler, HTTPCode 429 \<mapsto> error_429_handler,
      ExcClass ''APIError'' \<mapsto> error_handler]"
    using init_app_handlers [OF assms] by (simp add: new_app_def)
  then show ?thesis
    by (cases f)
       (simp_all add: flask_handle_user_exception_def flask_handle_exception_def
          find_error_handler_def)
qed

theorem unmapped_failures_witness:
  "fst (init_app (example_world None) (new_app Map.empty)) = None \<and>
   flask_handle_user_exception False (snd (init_app (example_world None) (new_app Map.empty)))
     (UserException ''ZeroDivisionError'') = DefaultResponse 500 \<and>
   flask_handle_user_exception False (snd (init_app (example_world None) (new_app Map.empty)))
     (HTTPException 404) = Handled error_404_handler"
  using unmapped_failures [OF example_boot_dev] example_boot_dev by simp

text \<open>
  Claim C4 as stated answers every unmapped failure with status 500. An unmapped HTTP
  exception with status 405 is answered with status 405, and with propagation on, an
  unmapped exception is raised again instead of answered.
\<close>

theorem method_not_allowed_keeps_status:
  "fst (init_app (example_world None) (new_app Map.empty)) = None \<and>
   flask_handle_user_exception False (snd (init_app (example_world None) (new_app Map.empty)))
     (HTTPException 405) = DefaultResponse 405 \<and>
   flask_handle_user_exception True (snd (init_app (example_world None) (new_app Map.empty)))
     (UserException ''ZeroDivisionError'') = Reraised"
proof -
  have "error_handler_spec (snd (init_app (example_world None) (new_app Map.empty))) =
     [HTTPCode 404 \<mapsto> error_404_handler, HTTPCode 429 \<mapsto> error_429_handler,
      ExcClass ''APIError'' \<mapsto> error_handler]"
    using init_app_handlers [OF example_boot_dev] by (simp add: new_app_def)
  then show ?thesis
    by (simp add: example_boot_dev flask_handle_user_exception_def flask_handle_exception_def
        find_error_handler_def)
qed

end
